theory Spec2Isabelle
  imports Main
begin

section \<open>The onboarding screen of \<^verbatim>\<open>frontend/app/dashboard/page.tsx\<close>\<close>

text \<open>
  The file holds one React component, \<^verbatim>\<open>Dashboard\<close>: three pieces of component state, the
  asynchronous handler \<^verbatim>\<open>handleConfirm\<close>, and the JSX the component returns. The component
  state is a record, the handler body is a list of statements run by a small interpreter that
  suspends at every \<^verbatim>\<open>await\<close>, and the JSX is a tree whose visible handlers decide which
  user gestures are possible.
\<close>

subsection \<open>Calendar dates\<close>

text \<open>
  Modelled from the spec: \<^verbatim>\<open>CalendarDate\<close> and its \<^verbatim>\<open>toString\<close> belong to the package
  \<^verbatim>\<open>@internationalized/date\<close>, which is not part of the repository. The spec calls the value
  a calendar date (year, month, day) and its rendering an ISO calendar string, as in
  \<^verbatim>\<open>2024-03-15\<close>: four digits, two digits, two digits, padded with zeros.
\<close>

record CalendarDate =
  year :: nat
  month :: nat
  day :: nat

definition digit_char :: "nat \<Rightarrow> char" where
  "digit_char n = ''0123456789'' ! (n mod 10)"

fun decimal :: "nat \<Rightarrow> string" where
  "decimal n = (if n < 10 then [digit_char n] else decimal (n div 10) @ [digit_char (n mod 10)])"

declare decimal.simps [simp del]

definition padStart :: "nat \<Rightarrow> char \<Rightarrow> string \<Rightarrow> string" where
  "padStart w c s = replicate (w - length s) c @ s"

text \<open>Modelled from the spec: \<^verbatim>\<open>CalendarDate.toString\<close>, the ISO calendar string
  \<^verbatim>\<open>YYYY-MM-DD\<close>.\<close>

definition toString :: "CalendarDate \<Rightarrow> string" where
  "toString d =
     padStart 4 CHR ''0'' (decimal (year d)) @ ''-'' @
     padStart 2 CHR ''0'' (decimal (month d)) @ ''-'' @
     padStart 2 CHR ''0'' (decimal (day d))"

subsection \<open>JavaScript values and \<^verbatim>\<open>JSON.stringify\<close>\<close>

text \<open>
  The values the handler builds: \<^verbatim>\<open>undefined\<close>, \<^verbatim>\<open>null\<close>, strings, and object literals
  (properties in the order written). \<^verbatim>\<open>JSON.stringify\<close> gives \<^verbatim>\<open>undefined\<close> for
  \<^verbatim>\<open>undefined\<close> (here \<open>None\<close>), and leaves out of an object every property whose value is
  \<^verbatim>\<open>undefined\<close>. String quoting escapes the double quote, the backslash and the control
  characters.
\<close>

datatype jsval = JUndefined | JNull | JString string | JObject "(string \<times> jsval) list"

definition hex_char :: "nat \<Rightarrow> char" where
  "hex_char n = ''0123456789abcdef'' ! (n mod 16)"

definition escape_char :: "char \<Rightarrow> string" where
  "escape_char c =
     (if c = CHR 0x22 then [CHR 0x5C, CHR 0x22]
      else if c = CHR 0x5C then [CHR 0x5C, CHR 0x5C]
      else if c = CHR 0x08 then [CHR 0x5C, CHR ''b'']
      else if c = CHR 0x09 then [CHR 0x5C, CHR ''t'']
      else if c = CHR 0x0A then [CHR 0x5C, CHR ''n'']
      else if c = CHR 0x0C then [CHR 0x5C, CHR ''f'']
      else if c = CHR 0x0D then [CHR 0x5C, CHR ''r'']
      else if (of_char c :: nat) < 32
        then [CHR 0x5C, CHR ''u'', CHR ''0'', CHR ''0'',
              hex_char (of_char c div 16), hex_char (of_char c mod 16)]
      else [c])"

definition quote :: "string \<Rightarrow> string" where
  "quote s = [CHR 0x22] @ concat (map escape_char s) @ [CHR 0x22]"

fun join :: "string \<Rightarrow> string list \<Rightarrow> string" where
  "join sep [] = []"
| "join sep [x] = x"
| "join sep (x # y # ys) = x @ sep @ join sep (y # ys)"

fun JSON_stringify :: "jsval \<Rightarrow> string option"
  and stringify_props :: "(string \<times> jsval) list \<Rightarrow> string list" where
  "JSON_stringify JUndefined = None"
| "JSON_stringify JNull = Some ''null''"
| "JSON_stringify (JString s) = Some (quote s)"
| "JSON_stringify (JObject kvs) = Some (''{'' @ join '','' (stringify_props kvs) @ ''}'')"
| "stringify_props [] = []"
| "stringify_props ((k, v) # kvs) =
     (case JSON_stringify v of
        None \<Rightarrow> stringify_props kvs
      | Some t \<Rightarrow> (quote k @ '':'' @ t) # stringify_props kvs)"

text \<open>Optional chaining, \<^verbatim>\<open>selectedDate?.toString()\<close>: \<^verbatim>\<open>undefined\<close> when the date is
  \<^verbatim>\<open>null\<close>.\<close>

definition optional_toString :: "CalendarDate option \<Rightarrow> jsval" where
  "optional_toString sel = (case sel of None \<Rightarrow> JUndefined | Some d \<Rightarrow> JString (toString d))"

subsection \<open>The two requests\<close>

record request =
  url :: string
  http_method :: string
  headers :: "(string \<times> string) list"
  body :: "string option"

definition save_start_date_request :: "CalendarDate option \<Rightarrow> request" where
  "save_start_date_request sel =
     \<lparr>url = ''/api/save-start-date'',
      http_method = ''POST'',
      headers = [(''Content-Type'', ''application/json'')],
      body = JSON_stringify (JObject [(''start_date'', optional_toString sel)])\<rparr>"

definition fetch_emails_request :: request where
  "fetch_emails_request =
     \<lparr>url = ''/api/fetch-emails'',
      http_method = ''POST'',
      headers = [(''Content-Type'', ''application/json'')],
      body = JSON_stringify (JObject [(''user_id'', JString ''your_user_id_here'')])\<rparr>"

subsection \<open>Component state, promises and the handler\<close>

text \<open>
  A \<^verbatim>\<open>fetch\<close> promise settles in one of two ways: it resolves with a response of some HTTP
  status, or it rejects (a network error). The handler never reads the response.
\<close>

datatype outcome = Resolved nat | Rejected

datatype effect = Issued request | Settled string outcome | Navigated string

datatype stmt =
    SetStartDate "CalendarDate option"
  | SetShowModal bool
  | AwaitFetch request
  | RouterReplace string

text \<open>
  The promise of one call of \<^verbatim>\<open>handleConfirm\<close>: not called yet, suspended at an
  \<^verbatim>\<open>await\<close> on a request with the statements that follow it, returned, or ended by the
  exception that \<^verbatim>\<open>await\<close> raises on a rejected promise (the body has no
  \<^verbatim>\<open>try\<close>).
\<close>

datatype task = NotStarted | Awaiting request "stmt list" | Fulfilled | Threw

record sys =
  showModal :: bool
  startDate :: "CalendarDate option"
  selectedDate :: "CalendarDate option"
  task :: task
  trace :: "effect list"
  history :: "string list"

definition init :: "string list \<Rightarrow> sys" where
  "init h = \<lparr>showModal = True, startDate = None, selectedDate = None,
             task = NotStarted, trace = [], history = h\<rparr>"

text \<open>
  Modelled from the spec: the router comes from \<^verbatim>\<open>next/navigation\<close>, outside the
  repository. \<^verbatim>\<open>replace\<close> puts the route in the place of the current history entry (the
  head of the list) and adds no entry; \<^verbatim>\<open>push\<close> would add one.
\<close>

definition router_replace :: "string \<Rightarrow> string list \<Rightarrow> string list" where
  "router_replace p h = (case h of [] \<Rightarrow> [p] | cur # prev \<Rightarrow> p # prev)"


text \<open>Running statements up to the next \<^verbatim>\<open>await\<close>, or to the end of the body.\<close>

fun exec :: "stmt list \<Rightarrow> sys \<Rightarrow> sys" where
  "exec [] s = s\<lparr>task := Fulfilled\<rparr>"
| "exec (SetStartDate d # k) s = exec k (s\<lparr>startDate := d\<rparr>)"
| "exec (SetShowModal b # k) s = exec k (s\<lparr>showModal := b\<rparr>)"
| "exec (AwaitFetch r # k) s = s\<lparr>task := Awaiting r k, trace := trace s @ [Issued r]\<rparr>"
| "exec (RouterReplace p # k) s =
     exec k (s\<lparr>history := router_replace p (history s), trace := trace s @ [Navigated p]\<rparr>)"

text \<open>The body of \<^verbatim>\<open>handleConfirm\<close>, closed over the \<^verbatim>\<open>selectedDate\<close> of the render
  that created it.\<close>

definition handleConfirm :: "CalendarDate option \<Rightarrow> stmt list" where
  "handleConfirm sel =
     [SetStartDate sel,
      SetShowModal False,
      AwaitFetch (save_start_date_request sel),
      AwaitFetch fetch_emails_request,
      RouterReplace ''/processing'']"

text \<open>A pending request settles: on a resolution the handler goes on with the statements
  after the \<^verbatim>\<open>await\<close>, on a rejection the \<^verbatim>\<open>await\<close> throws and the handler ends.\<close>

definition settle :: "outcome \<Rightarrow> sys \<Rightarrow> sys option" where
  "settle out s =
     (case task s of
        Awaiting r k \<Rightarrow>
          (case out of
             Resolved st \<Rightarrow> Some (exec k (s\<lparr>trace := trace s @ [Settled (url r) out]\<rparr>))
           | Rejected \<Rightarrow> Some (s\<lparr>task := Threw, trace := trace s @ [Settled (url r) out]\<rparr>))
      | _ \<Rightarrow> None)"

subsection \<open>What the component renders\<close>

datatype handler = CloseModal | SetSelectedDate | HandleConfirm

datatype node =
    Element string "node list"
  | Text string
  | Transition bool "node list"
  | Dialog handler "node list"
  | DatePicker "CalendarDate option" handler
  | Button handler "node list"

definition Dashboard :: "sys \<Rightarrow> node" where
  "Dashboard s =
     Element ''div''
       ([Transition (showModal s)
           [Dialog CloseModal
              [Element ''div'' [],
               Element ''div''
                 [Element ''div''
                    [Element ''h2''
                       [Text ''Please enter the start date of your current job search:''],
                     DatePicker (selectedDate s) SetSelectedDate,
                     Button HandleConfirm [Text ''Confirm'']]]]]]
        @ (if \<not> showModal s
           then [Element ''h1'' [Text ''Dashboard''],
                 Element ''p''
                   [Text ''Your job search start date: '',
                    Text (case startDate s of Some d \<Rightarrow> toString d | None \<Rightarrow> ''Not set'')]]
           else []))"

text \<open>What is on the screen: a \<^verbatim>\<open>Transition\<close> whose \<^verbatim>\<open>show\<close> is false shows none of its
  children. \<open>texts\<close> reads the visible text, \<open>wired\<close> the handlers of the visible controls,
  \<open>pickers\<close> the values the visible date pickers display, \<open>buttons\<close> the visible buttons
  with their handler and label.\<close>

fun texts :: "node \<Rightarrow> string list" and texts_list :: "node list \<Rightarrow> string list" where
  "texts (Element tag cs) = texts_list cs"
| "texts (Text t) = [t]"
| "texts (Transition shown cs) = (if shown then texts_list cs else [])"
| "texts (Dialog h cs) = texts_list cs"
| "texts (DatePicker v h) = []"
| "texts (Button h cs) = texts_list cs"
| "texts_list [] = []"
| "texts_list (c # cs) = texts c @ texts_list cs"

fun wired :: "node \<Rightarrow> handler list" and wired_list :: "node list \<Rightarrow> handler list" where
  "wired (Element tag cs) = wired_list cs"
| "wired (Text t) = []"
| "wired (Transition shown cs) = (if shown then wired_list cs else [])"
| "wired (Dialog h cs) = h # wired_list cs"
| "wired (DatePicker v h) = [h]"
| "wired (Button h cs) = h # wired_list cs"
| "wired_list [] = []"
| "wired_list (c # cs) = wired c @ wired_list cs"

fun pickers :: "node \<Rightarrow> CalendarDate option list"
  and pickers_list :: "node list \<Rightarrow> CalendarDate option list" where
  "pickers (Element tag cs) = pickers_list cs"
| "pickers (Text t) = []"
| "pickers (Transition shown cs) = (if shown then pickers_list cs else [])"
| "pickers (Dialog h cs) = pickers_list cs"
| "pickers (DatePicker v h) = [v]"
| "pickers (Button h cs) = pickers_list cs"
| "pickers_list [] = []"
| "pickers_list (c # cs) = pickers c @ pickers_list cs"

fun buttons :: "node \<Rightarrow> (handler \<times> string list) list"
  and buttons_list :: "node list \<Rightarrow> (handler \<times> string list) list" where
  "buttons (Element tag cs) = buttons_list cs"
| "buttons (Text t) = []"
| "buttons (Transition shown cs) = (if shown then buttons_list cs else [])"
| "buttons (Dialog h cs) = buttons_list cs"
| "buttons (DatePicker v h) = []"
| "buttons (Button h cs) = (h, texts_list cs) # buttons_list cs"
| "buttons_list [] = []"
| "buttons_list (c # cs) = buttons c @ buttons_list cs"

subsection \<open>Events\<close>

text \<open>
  \<open>fire\<close> follows the sessions in which a gesture reaches a handler only while the flag
  shows its control, reading a \<^verbatim>\<open>Transition\<close> whose \<^verbatim>\<open>show\<close> is false as hiding the
  dialog at once; there a single call of \<^verbatim>\<open>handleConfirm\<close> exists, and its promise is the
  \<open>task\<close> of the state. A settlement is possible when a request is pending. \<open>fire\<close> is
  \<open>None\<close> on an event that cannot happen in the state. The handlers themselves test
  nothing: \<open>dispatch\<close>, below, runs them from any state.
\<close>

datatype event = Change "CalendarDate option" | Confirm | Close | Settle outcome

fun fire :: "event \<Rightarrow> sys \<Rightarrow> sys option" where
  "fire (Change d) s =
     (if SetSelectedDate \<in> set (wired (Dashboard s)) then Some (s\<lparr>selectedDate := d\<rparr>) else None)"
| "fire Confirm s =
     (if HandleConfirm \<in> set (wired (Dashboard s))
      then Some (exec (handleConfirm (selectedDate s)) s) else None)"
| "fire Close s =
     (if CloseModal \<in> set (wired (Dashboard s)) then Some (s\<lparr>showModal := False\<rparr>) else None)"
| "fire (Settle out) s = settle out s"

fun run :: "event list \<Rightarrow> sys \<Rightarrow> sys option" where
  "run [] s = Some s"
| "run (e # es) s = (case fire e s of None \<Rightarrow> None | Some s' \<Rightarrow> run es s')"

subsection \<open>The handlers, called at any time\<close>

text \<open>
  \<^verbatim>\<open>onChange\<close>, \<^verbatim>\<open>onClose\<close> and \<^verbatim>\<open>handleConfirm\<close> run whenever they are called, and
  the dialog stays mounted while the \<^verbatim>\<open>Transition\<close> leaves, so a gesture can still reach
  them after the flag has become false: a second confirm, a confirm after a close, a date
  change after a confirm. Every call of \<^verbatim>\<open>handleConfirm\<close> has its own promise. The state
  is the component state together with the promises of all calls made so far, in call
  order; the \<open>task\<close> of the component state is the promise of the call that ran last.
  \<open>Settles i out\<close> settles the request that the \<open>i\<close>-th call is waiting for.
\<close>

datatype call = OnChange "CalendarDate option" | OnClick | OnClose | Settles nat outcome

fun dispatch :: "call \<Rightarrow> sys \<times> task list \<Rightarrow> (sys \<times> task list) option" where
  "dispatch (OnChange d) (s, ts) = Some (s\<lparr>selectedDate := d\<rparr>, ts)"
| "dispatch OnClick (s, ts) =
     (let s' = exec (handleConfirm (selectedDate s)) s in Some (s', ts @ [task s']))"
| "dispatch OnClose (s, ts) = Some (s\<lparr>showModal := False\<rparr>, ts)"
| "dispatch (Settles i out) (s, ts) =
     (if i < length ts
      then (case settle out (s\<lparr>task := ts ! i\<rparr>) of
              None \<Rightarrow> None
            | Some s' \<Rightarrow> Some (s', ts[i := task s']))
      else None)"

fun dispatch_all :: "call list \<Rightarrow> sys \<times> task list \<Rightarrow> (sys \<times> task list) option" where
  "dispatch_all [] p = Some p"
| "dispatch_all (c # cs) p =
     (case dispatch c p of None \<Rightarrow> None | Some p' \<Rightarrow> dispatch_all cs p')"

text \<open>The events of \<open>fire\<close> as calls: in its sessions the only call of
  \<^verbatim>\<open>handleConfirm\<close> is call 0.\<close>

fun to_call :: "event \<Rightarrow> call" where
  "to_call (Change d) = OnChange d"
| "to_call Confirm = OnClick"
| "to_call Close = OnClose"
| "to_call (Settle out) = Settles 0 out"

definition calls_of :: "sys \<Rightarrow> task list" where
  "calls_of s = (if task s = NotStarted then [] else [task s])"

text \<open>Statements that write the flag or the confirmed date, and promises whose remaining
  statements hold none of them.\<close>

fun touches_state :: "stmt \<Rightarrow> bool" where
  "touches_state (SetStartDate d) = True"
| "touches_state (SetShowModal b) = True"
| "touches_state x = False"

fun quiet_task :: "task \<Rightarrow> bool" where
  "quiet_task (Awaiting r k) = list_all (\<lambda>x. \<not> touches_state x) k"
| "quiet_task t = True"

subsection \<open>Reading a trace\<close>

fun navigations :: "effect list \<Rightarrow> string list" where
  "navigations [] = []"
| "navigations (Navigated p # tr) = p # navigations tr"
| "navigations (x # tr) = navigations tr"

fun issued :: "effect list \<Rightarrow> request list" where
  "issued [] = []"
| "issued (Issued r # tr) = r # issued tr"
| "issued (x # tr) = issued tr"


subsection \<open>The states a session passes through\<close>

text \<open>
  Seven families of states, named after the point of the session they describe. They are
  shown below to be closed under every event, so every state of a session that starts in
  \<open>init h\<close> is one of them.
\<close>

definition awaiting_input :: "string list \<Rightarrow> CalendarDate option \<Rightarrow> sys" where
  "awaiting_input h sel =
     \<lparr>showModal = True, startDate = None, selectedDate = sel,
      task = NotStarted, trace = [], history = h\<rparr>"

definition dismissed :: "string list \<Rightarrow> CalendarDate option \<Rightarrow> sys" where
  "dismissed h sel =
     \<lparr>showModal = False, startDate = None, selectedDate = sel,
      task = NotStarted, trace = [], history = h\<rparr>"

definition saving :: "string list \<Rightarrow> CalendarDate option \<Rightarrow> sys" where
  "saving h sel =
     \<lparr>showModal = False, startDate = sel, selectedDate = sel,
      task = Awaiting (save_start_date_request sel)
               [AwaitFetch fetch_emails_request, RouterReplace ''/processing''],
      trace = [Issued (save_start_date_request sel)], history = h\<rparr>"

definition save_failed :: "string list \<Rightarrow> CalendarDate option \<Rightarrow> sys" where
  "save_failed h sel =
     \<lparr>showModal = False, startDate = sel, selectedDate = sel, task = Threw,
      trace = [Issued (save_start_date_request sel),
               Settled ''/api/save-start-date'' Rejected],
      history = h\<rparr>"

definition fetching :: "string list \<Rightarrow> CalendarDate option \<Rightarrow> nat \<Rightarrow> sys" where
  "fetching h sel a =
     \<lparr>showModal = False, startDate = sel, selectedDate = sel,
      task = Awaiting fetch_emails_request [RouterReplace ''/processing''],
      trace = [Issued (save_start_date_request sel),
               Settled ''/api/save-start-date'' (Resolved a),
               Issued fetch_emails_request],
      history = h\<rparr>"

definition fetch_failed :: "string list \<Rightarrow> CalendarDate option \<Rightarrow> nat \<Rightarrow> sys" where
  "fetch_failed h sel a =
     \<lparr>showModal = False, startDate = sel, selectedDate = sel, task = Threw,
      trace = [Issued (save_start_date_request sel),
               Settled ''/api/save-start-date'' (Resolved a),
               Issued fetch_emails_request,
               Settled ''/api/fetch-emails'' Rejected],
      history = h\<rparr>"

definition completed :: "string list \<Rightarrow> CalendarDate option \<Rightarrow> nat \<Rightarrow> nat \<Rightarrow> sys" where
  "completed h sel a b =
     \<lparr>showModal = False, startDate = sel, selectedDate = sel, task = Fulfilled,
      trace = [Issued (save_start_date_request sel),
               Settled ''/api/save-start-date'' (Resolved a),
               Issued fetch_emails_request,
               Settled ''/api/fetch-emails'' (Resolved b),
               Navigated ''/processing''],
      history = router_replace ''/processing'' h\<rparr>"

inductive session_state :: "string list \<Rightarrow> sys \<Rightarrow> bool" for h :: "string list" where
  in_awaiting_input: "session_state h (awaiting_input h sel)"
| in_dismissed: "session_state h (dismissed h sel)"
| in_saving: "session_state h (saving h sel)"
| in_save_failed: "session_state h (save_failed h sel)"
| in_fetching: "session_state h (fetching h sel a)"
| in_fetch_failed: "session_state h (fetch_failed h sel a)"
| in_completed: "session_state h (completed h sel a b)"

section \<open>Basic facts\<close>

lemma wired_Dashboard:
  "wired (Dashboard s) = (if showModal s then [CloseModal, SetSelectedDate, HandleConfirm] else [])"
  by (simp add: Dashboard_def)

lemma fire_Change: "fire (Change d) s = (if showModal s then Some (s\<lparr>selectedDate := d\<rparr>) else None)"
  by (simp add: wired_Dashboard)

lemma fire_Close: "fire Close s = (if showModal s then Some (s\<lparr>showModal := False\<rparr>) else None)"
  by (simp add: wired_Dashboard)

lemma fire_Confirm:
  "fire Confirm s =
     (if showModal s
      then Some (s\<lparr>startDate := selectedDate s, showModal := False,
                   task := Awaiting (save_start_date_request (selectedDate s))
                            [AwaitFetch fetch_emails_request, RouterReplace ''/processing''],
                   trace := trace s @ [Issued (save_start_date_request (selectedDate s))]\<rparr>)
      else None)"
  by (simp add: wired_Dashboard handleConfirm_def)

lemma url_save [simp]: "url (save_start_date_request sel) = ''/api/save-start-date''"
  by (simp add: save_start_date_request_def)

lemma url_fetch [simp]: "url fetch_emails_request = ''/api/fetch-emails''"
  by (simp add: fetch_emails_request_def)

lemma init_awaiting: "init h = awaiting_input h None"
  by (simp add: init_def awaiting_input_def)

lemmas shape_defs =
  awaiting_input_def dismissed_def saving_def save_failed_def fetching_def
  fetch_failed_def completed_def

lemma fire_awaiting_input:
  "fire e (awaiting_input h sel) =
     (case e of
        Change d \<Rightarrow> Some (awaiting_input h d)
      | Confirm \<Rightarrow> Some (saving h sel)
      | Close \<Rightarrow> Some (dismissed h sel)
      | Settle out \<Rightarrow> None)"
  by (cases e) (simp_all add: wired_Dashboard handleConfirm_def settle_def shape_defs)

lemma fire_dismissed: "fire e (dismissed h sel) = None"
  by (cases e) (simp_all add: wired_Dashboard handleConfirm_def settle_def shape_defs)

lemma fire_saving:
  "fire e (saving h sel) =
     (case e of
        Settle (Resolved a) \<Rightarrow> Some (fetching h sel a)
      | Settle Rejected \<Rightarrow> Some (save_failed h sel)
      | _ \<Rightarrow> None)"
  by (cases e)
     (simp_all add: wired_Dashboard handleConfirm_def settle_def shape_defs
        split: outcome.splits)

lemma fire_save_failed: "fire e (save_failed h sel) = None"
  by (cases e) (simp_all add: wired_Dashboard handleConfirm_def settle_def shape_defs)

lemma fire_fetching:
  "fire e (fetching h sel a) =
     (case e of
        Settle (Resolved b) \<Rightarrow> Some (completed h sel a b)
      | Settle Rejected \<Rightarrow> Some (fetch_failed h sel a)
      | _ \<Rightarrow> None)"
  by (cases e)
     (simp_all add: wired_Dashboard handleConfirm_def settle_def shape_defs
        split: outcome.splits)

lemma fire_fetch_failed: "fire e (fetch_failed h sel a) = None"
  by (cases e) (simp_all add: wired_Dashboard handleConfirm_def settle_def shape_defs)

lemma fire_completed: "fire e (completed h sel a b) = None"
  by (cases e) (simp_all add: wired_Dashboard handleConfirm_def settle_def shape_defs)

lemmas fire_shape =
  fire_awaiting_input fire_dismissed fire_saving fire_save_failed fire_fetching
  fire_fetch_failed fire_completed

lemma session_state_fire:
  assumes "session_state h s" and "fire e s = Some s'"
  shows "session_state h s'"
  using assms
  by (cases rule: session_state.cases)
     (auto simp: fire_shape split: event.splits outcome.splits intro: session_state.intros)

lemma session_state_run:
  "session_state h s \<Longrightarrow> run es s = Some s' \<Longrightarrow> session_state h s'"
proof (induction es arbitrary: s)
  case Nil
  then show ?case by simp
next
  case (Cons e es)
  then show ?case
    by (auto split: option.splits dest: session_state_fire)
qed

lemma session_state_reached:
  "run es (init h) = Some s \<Longrightarrow> session_state h s"
  using session_state_run [OF in_awaiting_input [of h None]]
  by (simp add: init_awaiting)

subsection \<open>Projections of the session states\<close>

lemma shape_showModal:
  "showModal (awaiting_input h sel)" "\<not> showModal (dismissed h sel)"
  "\<not> showModal (saving h sel)" "\<not> showModal (save_failed h sel)"
  "\<not> showModal (fetching h sel a)" "\<not> showModal (fetch_failed h sel a)"
  "\<not> showModal (completed h sel a b)"
  by (simp_all add: shape_defs)

lemma shape_startDate:
  "startDate (awaiting_input h sel) = None" "startDate (dismissed h sel) = None"
  "startDate (saving h sel) = sel" "startDate (save_failed h sel) = sel"
  "startDate (fetching h sel a) = sel" "startDate (fetch_failed h sel a) = sel"
  "startDate (completed h sel a b) = sel"
  by (simp_all add: shape_defs)

lemma shape_selectedDate:
  "selectedDate (awaiting_input h sel) = sel" "selectedDate (dismissed h sel) = sel"
  "selectedDate (saving h sel) = sel" "selectedDate (save_failed h sel) = sel"
  "selectedDate (fetching h sel a) = sel" "selectedDate (fetch_failed h sel a) = sel"
  "selectedDate (completed h sel a b) = sel"
  by (simp_all add: shape_defs)

lemma shape_task:
  "task (awaiting_input h sel) = NotStarted" "task (dismissed h sel) = NotStarted"
  "task (saving h sel) = Awaiting (save_start_date_request sel)
     [AwaitFetch fetch_emails_request, RouterReplace ''/processing'']"
  "task (save_failed h sel) = Threw"
  "task (fetching h sel a) = Awaiting fetch_emails_request [RouterReplace ''/processing'']"
  "task (fetch_failed h sel a) = Threw"
  "task (completed h sel a b) = Fulfilled"
  by (simp_all add: shape_defs)

lemma shape_history:
  "history (awaiting_input h sel) = h" "history (dismissed h sel) = h"
  "history (saving h sel) = h" "history (save_failed h sel) = h"
  "history (fetching h sel a) = h" "history (fetch_failed h sel a) = h"
  "history (completed h sel a b) = router_replace ''/processing'' h"
  by (simp_all add: shape_defs)

lemma shape_trace:
  "trace (awaiting_input h sel) = []" "trace (dismissed h sel) = []"
  "trace (saving h sel) = [Issued (save_start_date_request sel)]"
  "trace (save_failed h sel) =
     [Issued (save_start_date_request sel), Settled ''/api/save-start-date'' Rejected]"
  "trace (fetching h sel a) =
     [Issued (save_start_date_request sel), Settled ''/api/save-start-date'' (Resolved a),
      Issued fetch_emails_request]"
  "trace (fetch_failed h sel a) =
     [Issued (save_start_date_request sel), Settled ''/api/save-start-date'' (Resolved a),
      Issued fetch_emails_request, Settled ''/api/fetch-emails'' Rejected]"
  "trace (completed h sel a b) =
     [Issued (save_start_date_request sel), Settled ''/api/save-start-date'' (Resolved a),
      Issued fetch_emails_request, Settled ''/api/fetch-emails'' (Resolved b),
      Navigated ''/processing'']"
  by (simp_all add: shape_defs)

lemmas shape_sel =
  shape_showModal shape_startDate shape_selectedDate shape_task shape_history shape_trace

subsection \<open>Runs\<close>

lemma navigations_append: "navigations (xs @ ys) = navigations xs @ navigations ys"
  by (induction xs rule: navigations.induct) simp_all

lemma issued_append: "issued (xs @ ys) = issued xs @ issued ys"
  by (induction xs rule: issued.induct) simp_all

lemma dead_state:
  "\<not> showModal s \<Longrightarrow> task s = Threw \<or> task s = Fulfilled \<or> task s = NotStarted \<Longrightarrow> fire e s = None"
  by (cases e) (auto simp: wired_Dashboard settle_def)

subsection \<open>The handlers called at any time\<close>

lemma exec_quiet:
  "list_all (\<lambda>x. \<not> touches_state x) k \<Longrightarrow>
     showModal (exec k s) = showModal s \<and> startDate (exec k s) = startDate s \<and>
     selectedDate (exec k s) = selectedDate s \<and> quiet_task (task (exec k s))"
  by (induction k s rule: exec.induct) simp_all

lemma exec_handleConfirm:
  "exec (handleConfirm sel) s =
     s\<lparr>startDate := sel, showModal := False,
       task := Awaiting (save_start_date_request sel)
                 [AwaitFetch fetch_emails_request, RouterReplace ''/processing''],
       trace := trace s @ [Issued (save_start_date_request sel)]\<rparr>"
  by (simp add: handleConfirm_def)

lemma settle_quiet:
  assumes "quiet_task t" and "settle out (s\<lparr>task := t\<rparr>) = Some s'"
  shows "showModal s' = showModal s \<and> startDate s' = startDate s \<and>
         selectedDate s' = selectedDate s \<and> quiet_task (task s')"
proof (cases t)
  case (Awaiting r k)
  with assms(1) have k: "list_all (\<lambda>x. \<not> touches_state x) k" by simp
  show ?thesis
  proof (cases out)
    case (Resolved a)
    with assms(2) Awaiting
    have "s' = exec k (s\<lparr>task := t, trace := trace s @ [Settled (url r) out]\<rparr>)"
      by (simp add: settle_def)
    with exec_quiet [OF k] show ?thesis by simp
  next
    case Rejected
    with assms(2) Awaiting show ?thesis by (auto simp: settle_def)
  qed
qed (use assms(2) in \<open>simp_all add: settle_def\<close>)

lemma dispatch_quiet:
  assumes "list_all quiet_task ts" and "dispatch c (s, ts) = Some (s', ts')"
  shows "list_all quiet_task ts'"
proof (cases c)
  case (Settles i out)
  with assms(2) obtain s1 where i: "i < length ts"
    and s1: "settle out (s\<lparr>task := ts ! i\<rparr>) = Some s1" and t: "ts' = ts[i := task s1]"
    by (auto split: if_splits option.splits)
  from assms(1) i have "quiet_task (ts ! i)" by (simp add: list_all_length)
  from settle_quiet [OF this s1] have "quiet_task (task s1)" by simp
  with assms(1) show ?thesis
    unfolding t by (auto simp: list_all_iff dest: set_update_subset_insert [THEN subsetD])
next
  case OnClick
  with assms show ?thesis by (auto simp: exec_handleConfirm)
qed (use assms in auto)

lemma dispatch_flag_dates:
  assumes "list_all quiet_task ts" and "dispatch c (s, ts) = Some (s', ts')"
  shows "showModal s' = (showModal s \<and> c \<noteq> OnClick \<and> c \<noteq> OnClose)"
    and "c \<noteq> OnClick \<Longrightarrow> startDate s' = startDate s"
    and "c = OnClick \<Longrightarrow> startDate s' = selectedDate s"
proof -
  have "showModal s' = (showModal s \<and> c \<noteq> OnClick \<and> c \<noteq> OnClose) \<and>
        (c \<noteq> OnClick \<longrightarrow> startDate s' = startDate s) \<and>
        (c = OnClick \<longrightarrow> startDate s' = selectedDate s)"
  proof (cases c)
    case (Settles i out)
    with assms(2) obtain s1 where i: "i < length ts"
      and s1: "settle out (s\<lparr>task := ts ! i\<rparr>) = Some s1" and t: "s' = s1"
      by (auto split: if_splits option.splits)
    from assms(1) i have "quiet_task (ts ! i)" by (simp add: list_all_length)
    from settle_quiet [OF this s1] Settles t show ?thesis by simp
  next
    case OnClick
    with assms show ?thesis by (auto simp: exec_handleConfirm)
  qed (use assms in auto)
  then show "showModal s' = (showModal s \<and> c \<noteq> OnClick \<and> c \<noteq> OnClose)"
    and "c \<noteq> OnClick \<Longrightarrow> startDate s' = startDate s"
    and "c = OnClick \<Longrightarrow> startDate s' = selectedDate s"
    by blast+
qed

lemma dispatch_all_flag_dates:
  "list_all quiet_task ts \<Longrightarrow> dispatch_all cs (s, ts) = Some (s', ts') \<Longrightarrow>
     list_all quiet_task ts' \<and>
     showModal s' = (showModal s \<and> OnClick \<notin> set cs \<and> OnClose \<notin> set cs) \<and>
     (OnClick \<notin> set cs \<longrightarrow> startDate s' = startDate s)"
proof (induction cs arbitrary: s ts)
  case Nil
  then show ?case by simp
next
  case (Cons c cs)
  from Cons.prems(2) obtain s1 ts1 where d: "dispatch c (s, ts) = Some (s1, ts1)"
    and r: "dispatch_all cs (s1, ts1) = Some (s', ts')"
    by (auto split: option.splits)
  from Cons.IH [OF dispatch_quiet [OF Cons.prems(1) d] r]
    dispatch_flag_dates [OF Cons.prems(1) d]
  show ?case by auto
qed

lemma dispatch_all_append:
  "dispatch_all (cs @ cs') p =
     (case dispatch_all cs p of None \<Rightarrow> None | Some p' \<Rightarrow> dispatch_all cs' p')"
  by (induction cs arbitrary: p) (auto split: option.splits)

lemma dispatch_all_changes:
  "dispatch_all (map OnChange ds) (s, ts) =
     Some (s\<lparr>selectedDate := (if ds = [] then selectedDate s else last ds)\<rparr>, ts)"
  by (induction ds arbitrary: s) simp_all

text \<open>Every session of \<open>run\<close> is a session of \<open>dispatch_all\<close>.\<close>

lemma fire_is_dispatch:
  assumes "session_state h s" and "fire e s = Some s'"
  shows "dispatch (to_call e) (s, calls_of s) = Some (s', calls_of s')"
  using assms
  by (cases rule: session_state.cases; cases e)
     (auto simp: calls_of_def wired_Dashboard settle_def exec_handleConfirm shape_defs
        split: outcome.splits)

lemma run_is_dispatch_all:
  "session_state h s \<Longrightarrow> run es s = Some s' \<Longrightarrow>
     dispatch_all (map to_call es) (s, calls_of s) = Some (s', calls_of s')"
proof (induction es arbitrary: s)
  case Nil
  then show ?case by simp
next
  case (Cons e es)
  from Cons.prems(2) obtain s1 where f: "fire e s = Some s1" and r: "run es s1 = Some s'"
    by (auto split: option.splits)
  from fire_is_dispatch [OF Cons.prems(1) f]
    Cons.IH [OF session_state_fire [OF Cons.prems(1) f] r]
  show ?case by simp
qed

lemma session_is_dispatch_all:
  "run es (init h) = Some s \<Longrightarrow>
     dispatch_all (map to_call es) (init h, []) = Some (s, calls_of s)"
  using run_is_dispatch_all [OF in_awaiting_input [of h None], of es s]
  by (simp add: init_awaiting calls_of_def shape_sel)

subsection \<open>The request bodies as text\<close>

lemma digit_char_in: "digit_char n \<in> set ''0123456789''"
  unfolding digit_char_def by (rule nth_mem) simp

lemma decimal_chars: "set (decimal n) \<subseteq> set ''0123456789''"
proof (induction n rule: decimal.induct)
  case (1 n)
  show ?case
  proof (cases "n < 10")
    case True
    then show ?thesis using digit_char_in [of n] by (subst decimal.simps) simp
  next
    case False
    then show ?thesis using 1 digit_char_in [of "n mod 10"] by (subst decimal.simps) simp
  qed
qed

lemma padStart_chars: "set (padStart w CHR ''0'' (decimal n)) \<subseteq> set ''0123456789''"
  using decimal_chars [of n] by (auto simp: padStart_def)

lemma toString_chars: "set (toString d) \<subseteq> set ''0123456789-''"
proof -
  have sub: "set ''0123456789'' \<subseteq> set ''0123456789-''"
    by (simp add: subset_insertI2)
  have dash: "set ''-'' \<subseteq> set ''0123456789-''"
    by simp
  show ?thesis
    unfolding toString_def set_append
    by (intro Un_least order_trans [OF padStart_chars sub] dash)
qed

lemma escape_plain: "c \<in> set ''0123456789-'' \<Longrightarrow> escape_char c = [c]"
  by (auto simp: escape_char_def)

lemma concat_escape_plain:
  "set s \<subseteq> set ''0123456789-'' \<Longrightarrow> concat (map escape_char s) = s"
proof (induction s)
  case Nil
  then show ?case by simp
next
  case (Cons c s)
  then have "escape_char c = [c]" by (intro escape_plain) simp
  with Cons show ?case by simp
qed

lemma quote_toString: "quote (toString d) = CHR 0x22 # toString d @ [CHR 0x22]"
  by (simp add: quote_def concat_escape_plain [OF toString_chars])

lemma quote_start_date: \<open>quote ''start_date'' = ''"start_date"''\<close>
  by (simp add: quote_def escape_char_def)

lemma body_fetch: \<open>body fetch_emails_request = Some ''{"user_id":"your_user_id_here"}''\<close>
  by (simp add: fetch_emails_request_def quote_def escape_char_def)

lemma body_save_None: "body (save_start_date_request None) = Some ''{}''"
  by (simp add: save_start_date_request_def optional_toString_def)

lemma body_save_Some:
  \<open>body (save_start_date_request (Some d)) = Some (''{"start_date":"'' @ toString d @ ''"}'')\<close>
  by (simp add: save_start_date_request_def optional_toString_def quote_start_date
      quote_toString)

lemma toString_example: "toString \<lparr>year = 2024, month = 3, day = 15\<rparr> = ''2024-03-15''"
  by (simp add: toString_def padStart_def decimal.simps digit_char_def)

section \<open>The claims\<close>

subsection \<open>C1: what a rejected call does to the workflow\<close>

text \<open>
  C1, as stated, fails. The handler awaits each \<^verbatim>\<open>fetch\<close> with no \<^verbatim>\<open>try\<close> around it, so
  a rejection of the persist-date call is thrown out of \<^verbatim>\<open>handleConfirm\<close>: with the date
  2024-03-15 picked, confirmed, and the persist-date call rejected, the handler has ended,
  the only request ever issued is the persist-date request, nothing was navigated, the
  history is untouched and no request is left to settle.
\<close>

theorem confirm_rejected_save_counterexample:
  "run [Change (Some \<lparr>year = 2024, month = 3, day = 15\<rparr>), Confirm, Settle Rejected]
       (init [''/dashboard''])
     = Some (save_failed [''/dashboard''] (Some \<lparr>year = 2024, month = 3, day = 15\<rparr>)) \<and>
   task (save_failed [''/dashboard''] (Some \<lparr>year = 2024, month = 3, day = 15\<rparr>)) = Threw \<and>
   issued (trace (save_failed [''/dashboard''] (Some \<lparr>year = 2024, month = 3, day = 15\<rparr>)))
     = [save_start_date_request (Some \<lparr>year = 2024, month = 3, day = 15\<rparr>)] \<and>
   navigations (trace (save_failed [''/dashboard''] (Some \<lparr>year = 2024, month = 3, day = 15\<rparr>)))
     = [] \<and>
   history (save_failed [''/dashboard''] (Some \<lparr>year = 2024, month = 3, day = 15\<rparr>))
     = [''/dashboard''] \<and>
   fire (Settle (Resolved 200))
       (save_failed [''/dashboard''] (Some \<lparr>year = 2024, month = 3, day = 15\<rparr>)) = None"
  by (simp add: init_awaiting fire_shape shape_sel)

text \<open>
  C1, amended: for every confirmation (every state in which the modal is shown), the confirm
  gesture starts the handler, and
  \<^item> when both calls resolve, whatever their HTTP statuses, the handler returns, having issued
    both requests and replaced the current history entry by the processing route;
  \<^item> when the persist-date call rejects, the handler ends there: the fetch-emails call is not
    issued, nothing is navigated, and no further event is possible;
  \<^item> when the persist-date call resolves and the fetch-emails call rejects, the handler ends
    there: nothing is navigated, and no further event is possible.
\<close>

theorem confirm_then_settlements:
  assumes "showModal s"
  shows "\<exists>s1. fire Confirm s = Some s1 \<and>
     (\<forall>a b. \<exists>s'. run [Settle (Resolved a), Settle (Resolved b)] s1 = Some s' \<and>
        task s' = Fulfilled \<and>
        issued (trace s') = issued (trace s) @
          [save_start_date_request (selectedDate s), fetch_emails_request] \<and>
        navigations (trace s') = navigations (trace s) @ [''/processing''] \<and>
        history s' = router_replace ''/processing'' (history s)) \<and>
     (\<exists>s'. run [Settle Rejected] s1 = Some s' \<and>
        task s' = Threw \<and>
        issued (trace s') = issued (trace s) @ [save_start_date_request (selectedDate s)] \<and>
        navigations (trace s') = navigations (trace s) \<and>
        history s' = history s \<and>
        (\<forall>e. fire e s' = None)) \<and>
     (\<forall>a. \<exists>s'. run [Settle (Resolved a), Settle Rejected] s1 = Some s' \<and>
        task s' = Threw \<and>
        issued (trace s') = issued (trace s) @
          [save_start_date_request (selectedDate s), fetch_emails_request] \<and>
        navigations (trace s') = navigations (trace s) \<and>
        history s' = history s \<and>
        (\<forall>e. fire e s' = None))"
proof -
  let ?s1 = "exec (handleConfirm (selectedDate s)) s"
  have c: "fire Confirm s = Some ?s1"
    using assms by (simp add: wired_Dashboard)
  have both: "\<exists>s'. run [Settle (Resolved a), Settle (Resolved b)] ?s1 = Some s' \<and>
        task s' = Fulfilled \<and>
        issued (trace s') = issued (trace s) @
          [save_start_date_request (selectedDate s), fetch_emails_request] \<and>
        navigations (trace s') = navigations (trace s) @ [''/processing''] \<and>
        history s' = router_replace ''/processing'' (history s)" for a b
    by (simp add: handleConfirm_def settle_def issued_append navigations_append)
  have first: "\<exists>s'. run [Settle Rejected] ?s1 = Some s' \<and>
        task s' = Threw \<and>
        issued (trace s') = issued (trace s) @ [save_start_date_request (selectedDate s)] \<and>
        navigations (trace s') = navigations (trace s) \<and>
        history s' = history s \<and>
        (\<forall>e. fire e s' = None)"
    by (simp add: handleConfirm_def settle_def issued_append navigations_append dead_state)
  have second: "\<exists>s'. run [Settle (Resolved a), Settle Rejected] ?s1 = Some s' \<and>
        task s' = Threw \<and>
        issued (trace s') = issued (trace s) @
          [save_start_date_request (selectedDate s), fetch_emails_request] \<and>
        navigations (trace s') = navigations (trace s) \<and>
        history s' = history s \<and>
        (\<forall>e. fire e s' = None)" for a
    by (simp add: handleConfirm_def settle_def issued_append navigations_append dead_state)
  from c both first second show ?thesis by blast
qed

theorem confirm_then_settlements_witness:
  "showModal (init [''/dashboard'']) \<and>
   (\<exists>s1. fire Confirm (init [''/dashboard'']) = Some s1 \<and>
      (\<exists>s'. run [Settle (Resolved 200), Settle (Resolved 500)] s1 = Some s' \<and>
         task s' = Fulfilled \<and> navigations (trace s') = [''/processing''] \<and>
         history s' = [''/processing'']) \<and>
      (\<exists>s'. run [Settle Rejected] s1 = Some s' \<and> task s' = Threw \<and>
         issued (trace s') = [save_start_date_request None] \<and>
         navigations (trace s') = [] \<and> history s' = [''/dashboard'']))"
proof -
  have h: "showModal (init [''/dashboard''])"
    by (simp add: init_def)
  from confirm_then_settlements [OF h] obtain s1 where
    c: "fire Confirm (init [''/dashboard'']) = Some s1"
    and both: "\<And>a b. \<exists>s'. run [Settle (Resolved a), Settle (Resolved b)] s1 = Some s' \<and>
        task s' = Fulfilled \<and>
        issued (trace s') = issued (trace (init [''/dashboard''])) @
          [save_start_date_request (selectedDate (init [''/dashboard''])), fetch_emails_request] \<and>
        navigations (trace s') = navigations (trace (init [''/dashboard''])) @ [''/processing''] \<and>
        history s' = router_replace ''/processing'' (history (init [''/dashboard'']))"
    and rej: "\<exists>s'. run [Settle Rejected] s1 = Some s' \<and>
        task s' = Threw \<and>
        issued (trace s') = issued (trace (init [''/dashboard''])) @
          [save_start_date_request (selectedDate (init [''/dashboard'']))] \<and>
        navigations (trace s') = navigations (trace (init [''/dashboard''])) \<and>
        history s' = history (init [''/dashboard'']) \<and>
        (\<forall>e. fire e s' = None)"
    by blast
  from both [of 200 500] obtain s2 where
    s2: "run [Settle (Resolved 200), Settle (Resolved 500)] s1 = Some s2" "task s2 = Fulfilled"
      "navigations (trace s2) = [''/processing'']" "history s2 = [''/processing'']"
    by (auto simp: init_def router_replace_def simp del: run.simps)
  from rej obtain s3 where
    s3: "run [Settle Rejected] s1 = Some s3" "task s3 = Threw"
      "issued (trace s3) = [save_start_date_request None]"
      "navigations (trace s3) = []" "history s3 = [''/dashboard'']"
    by (auto simp: init_def simp del: run.simps)
  from h c s2 s3 show ?thesis by blast
qed

subsection \<open>C2: the fetch-emails call follows the settlement of the persist-date call\<close>



subsection \<open>C3: the body of the persist-date request\<close>

text \<open>
  C3, as stated, fails when no date was picked. \<^verbatim>\<open>selectedDate?.toString()\<close> is then
  \<^verbatim>\<open>undefined\<close>, not \<^verbatim>\<open>null\<close>, and \<^verbatim>\<open>JSON.stringify\<close> leaves a property whose value is
  \<^verbatim>\<open>undefined\<close> out of the object: the body is the empty object, which is not the text that
  an object with \<^verbatim>\<open>start_date: null\<close> serialises to.
\<close>

theorem save_body_without_date_counterexample:
  \<open>body (save_start_date_request None) = Some ''{}'' \<and>
   JSON_stringify (JObject [(''start_date'', JNull)]) = Some ''{"start_date":null}'' \<and>
   body (save_start_date_request None) \<noteq> JSON_stringify (JObject [(''start_date'', JNull)])\<close>
  by (simp add: body_save_None quote_start_date)

text \<open>
  C3, amended: for every confirmation the persist-date request is a POST with a JSON content
  type; it is the first effect of the confirm gesture and is built from the date that
  becomes the confirmed date. Its body is \<^verbatim>\<open>{"start_date":"<ISO calendar string>"}\<close>
  when a date is set, and the empty object \<^verbatim>\<open>{}\<close> (the key is left out) when no date was
  picked.
\<close>

theorem save_start_date_request_shape:
  \<open>url (save_start_date_request sel) = ''/api/save-start-date'' \<and>
   http_method (save_start_date_request sel) = ''POST'' \<and>
   headers (save_start_date_request sel) = [(''Content-Type'', ''application/json'')] \<and>
   body (save_start_date_request sel) =
     Some (case sel of
             None \<Rightarrow> ''{}''
           | Some d \<Rightarrow> ''{"start_date":"'' @ toString d @ ''"}'') \<and>
   (showModal s \<longrightarrow>
      (\<exists>s'. fire Confirm s = Some s' \<and>
            trace s' = trace s @ [Issued (save_start_date_request (startDate s'))] \<and>
            startDate s' = selectedDate s))\<close>
proof (intro conjI)
  show "url (save_start_date_request sel) = ''/api/save-start-date''"
    by simp
  show "http_method (save_start_date_request sel) = ''POST''"
    by (simp add: save_start_date_request_def)
  show "headers (save_start_date_request sel) = [(''Content-Type'', ''application/json'')]"
    by (simp add: save_start_date_request_def)
  show \<open>body (save_start_date_request sel) =
     Some (case sel of
             None \<Rightarrow> ''{}''
           | Some d \<Rightarrow> ''{"start_date":"'' @ toString d @ ''"}'')\<close>
    by (cases sel) (simp_all add: body_save_None body_save_Some)
  show "showModal s \<longrightarrow>
      (\<exists>s'. fire Confirm s = Some s' \<and>
            trace s' = trace s @ [Issued (save_start_date_request (startDate s'))] \<and>
            startDate s' = selectedDate s)"
    by (simp add: wired_Dashboard handleConfirm_def)
qed

theorem save_start_date_request_shape_witness:
  \<open>showModal (awaiting_input [''/dashboard''] (Some \<lparr>year = 2024, month = 3, day = 15\<rparr>)) \<and>
   (\<exists>s'. fire Confirm (awaiting_input [''/dashboard''] (Some \<lparr>year = 2024, month = 3, day = 15\<rparr>))
            = Some s' \<and>
          trace s' = [Issued (save_start_date_request (startDate s'))] \<and>
          startDate s' = Some \<lparr>year = 2024, month = 3, day = 15\<rparr>) \<and>
   body (save_start_date_request (Some \<lparr>year = 2024, month = 3, day = 15\<rparr>))
     = Some ''{"start_date":"2024-03-15"}''\<close>
  using save_start_date_request_shape
    [of "Some \<lparr>year = 2024, month = 3, day = 15\<rparr>"
        "awaiting_input [''/dashboard''] (Some \<lparr>year = 2024, month = 3, day = 15\<rparr>)"]
  by (simp add: awaiting_input_def toString_example)

subsection \<open>C4: the modal flag\<close>

text \<open>
  C4, as stated, fails: the confirm gesture is not the only event that sets the flag to
  false. The dialog's \<^verbatim>\<open>onClose\<close> handler does it too: after the close gesture alone the
  modal is hidden although \<^verbatim>\<open>handleConfirm\<close> was never called, no date was confirmed and no
  request was issued.
\<close>

theorem close_hides_modal_counterexample:
  "run [Close] (init [''/dashboard'']) = Some (dismissed [''/dashboard''] None) \<and>
   \<not> showModal (dismissed [''/dashboard''] None) \<and>
   task (dismissed [''/dashboard''] None) = NotStarted \<and>
   startDate (dismissed [''/dashboard''] None) = None \<and>
   trace (dismissed [''/dashboard''] None) = []"
  by (simp add: init_awaiting fire_shape shape_sel)

text \<open>
  C4, amended: in every session, with the handlers called at any time, the flag starts
  true; it is false exactly when a confirm gesture or a close gesture of the dialog has
  occurred (the confirm gesture sets it in the part of \<^verbatim>\<open>handleConfirm\<close> that runs
  before the first \<^verbatim>\<open>await\<close>; no date change and no settlement changes it); and once
  false it is never true again, whatever is called afterwards.
\<close>

theorem showModal_only_falls:
  assumes "dispatch_all cs (init h, []) = Some (s, ts)"
  shows "showModal (init h) \<and>
         (showModal s \<longleftrightarrow> OnClick \<notin> set cs \<and> OnClose \<notin> set cs) \<and>
         (\<forall>cs' s' ts'. \<not> showModal s \<longrightarrow> dispatch_all cs' (s, ts) = Some (s', ts')
            \<longrightarrow> \<not> showModal s')"
proof -
  have i: "showModal (init h)"
    by (simp add: init_def)
  have q: "list_all quiet_task []"
    by simp
  from dispatch_all_flag_dates [OF q assms] i
  have ts: "list_all quiet_task ts"
    and f: "showModal s \<longleftrightarrow> OnClick \<notin> set cs \<and> OnClose \<notin> set cs"
    by simp_all
  have "\<not> showModal s'"
    if "\<not> showModal s" and "dispatch_all cs' (s, ts) = Some (s', ts')" for cs' s' ts'
    using dispatch_all_flag_dates [OF ts that(2)] that(1) by simp
  with i f show ?thesis by blast
qed

theorem showModal_only_falls_witness:
  "\<exists>s ts. dispatch_all [OnChange None, OnClick, OnClose, OnClick, Settles 1 (Resolved 200)]
             (init [''/dashboard''], []) = Some (s, ts) \<and>
          showModal (init [''/dashboard'']) \<and> \<not> showModal s \<and>
          (\<exists>s' ts'. dispatch_all [Settles 0 Rejected, OnChange None] (s, ts) = Some (s', ts') \<and>
                     \<not> showModal s')"
proof -
  obtain s ts where
    r: "dispatch_all [OnChange None, OnClick, OnClose, OnClick, Settles 1 (Resolved 200)]
             (init [''/dashboard''], []) = Some (s, ts)"
    by (simp add: exec_handleConfirm settle_def)
  have "\<exists>p. dispatch_all [Settles 0 Rejected, OnChange None] (s, ts) = Some p"
    using r by (auto simp: exec_handleConfirm settle_def)
  then obtain s' ts' where
    r': "dispatch_all [Settles 0 Rejected, OnChange None] (s, ts) = Some (s', ts')"
    by (cases) auto
  from showModal_only_falls [OF r] r r' show ?thesis
    by (auto simp del: dispatch_all.simps)
qed

subsection \<open>C5: the confirmed date is a snapshot of the last picked date\<close>

text \<open>
  C5: for every sequence of values passed to the date control's change callback, followed by
  the confirm gesture, the confirmed date is the last of these values (absent if there was
  none). A change of the picked date, in whatever state it comes, sets the picked date and
  leaves the confirmed date as it is; and after the confirmation no sequence of date
  changes, close gestures and settlements alters the confirmed date (only a further confirm
  gesture sets it again).
\<close>

theorem confirmed_date_is_last_change:
  "(\<exists>s ts. dispatch_all (map OnChange ds @ [OnClick]) (init h, []) = Some (s, ts) \<and>
       startDate s = (if ds = [] then None else last ds) \<and>
       (\<forall>cs s' ts'. OnClick \<notin> set cs \<longrightarrow> dispatch_all cs (s, ts) = Some (s', ts')
          \<longrightarrow> startDate s' = startDate s)) \<and>
   (\<forall>d s0 ts0. \<exists>s'. dispatch (OnChange d) (s0, ts0) = Some (s', ts0) \<and>
       selectedDate s' = d \<and> startDate s' = startDate s0) \<and>
   (\<forall>d s0 s'. fire (Change d) s0 = Some s' \<longrightarrow>
       selectedDate s' = d \<and> startDate s' = startDate s0)"
proof -
  let ?sel = "if ds = [] then None else last ds"
  let ?s = "exec (handleConfirm ?sel) (init h\<lparr>selectedDate := ?sel\<rparr>)"
  let ?ts = "[task ?s]"
  have r: "dispatch_all (map OnChange ds @ [OnClick]) (init h, []) = Some (?s, ?ts)"
    by (simp add: dispatch_all_append dispatch_all_changes init_def Let_def)
  have d: "startDate ?s = ?sel"
    by (simp add: exec_handleConfirm)
  have q: "list_all quiet_task ?ts"
    by (simp add: exec_handleConfirm)
  have l: "startDate s' = startDate ?s"
    if "OnClick \<notin> set cs" and "dispatch_all cs (?s, ?ts) = Some (s', ts')" for cs s' ts'
    using dispatch_all_flag_dates [OF q that(2)] that(1) by simp
  have a: "\<exists>s. \<exists>ts. dispatch_all (map OnChange ds @ [OnClick]) (init h, []) = Some (s, ts) \<and>
       startDate s = ?sel \<and>
       (\<forall>cs s' ts'. OnClick \<notin> set cs \<longrightarrow> dispatch_all cs (s, ts) = Some (s', ts')
          \<longrightarrow> startDate s' = startDate s)"
    using r d l by blast
  have b: "\<forall>d s0 ts0. \<exists>s'. dispatch (OnChange d) (s0, ts0) = Some (s', ts0) \<and>
       selectedDate s' = d \<and> startDate s' = startDate s0"
    by simp
  have c: "\<forall>d s0 s'. fire (Change d) s0 = Some s' \<longrightarrow>
       selectedDate s' = d \<and> startDate s' = startDate s0"
    by (auto split: if_splits)
  from a b c show ?thesis by (intro conjI)
qed

theorem confirmed_date_is_last_change_witness:
  "\<exists>s ts. dispatch_all
            (map OnChange [Some \<lparr>year = 2024, month = 3, day = 15\<rparr>, None,
                           Some \<lparr>year = 2023, month = 11, day = 2\<rparr>] @ [OnClick])
            (init [''/dashboard''], []) = Some (s, ts) \<and>
          startDate s = Some \<lparr>year = 2023, month = 11, day = 2\<rparr> \<and>
          OnClick \<notin> set [OnChange (Some \<lparr>year = 2024, month = 3, day = 15\<rparr>), OnClose,
                           Settles 0 (Resolved 200)] \<and>
          (\<exists>s' ts'. dispatch_all
                       [OnChange (Some \<lparr>year = 2024, month = 3, day = 15\<rparr>), OnClose,
                        Settles 0 (Resolved 200)] (s, ts) = Some (s', ts') \<and>
                     selectedDate s' = Some \<lparr>year = 2024, month = 3, day = 15\<rparr> \<and>
                     startDate s' = Some \<lparr>year = 2023, month = 11, day = 2\<rparr>)"
proof -
  let ?ds = "[Some \<lparr>year = 2024, month = 3, day = 15\<rparr>, None,
              Some \<lparr>year = 2023, month = 11, day = 2\<rparr>]"
  let ?cs = "[OnChange (Some \<lparr>year = 2024, month = 3, day = 15\<rparr>), OnClose,
              Settles 0 (Resolved 200)]"
  from confirmed_date_is_last_change [of ?ds "[''/dashboard'']"]
  obtain s ts where
    r: "dispatch_all (map OnChange ?ds @ [OnClick]) (init [''/dashboard''], []) = Some (s, ts)"
    and d: "startDate s = (if ?ds = [] then None else last ?ds)"
    and later: "\<And>cs s' ts'. OnClick \<notin> set cs \<Longrightarrow> dispatch_all cs (s, ts) = Some (s', ts')
                  \<Longrightarrow> startDate s' = startDate s"
    by blast
  have n: "OnClick \<notin> set ?cs"
    by simp
  have "\<exists>s' ts'. dispatch_all ?cs (s, ts) = Some (s', ts') \<and>
          selectedDate s' = Some \<lparr>year = 2024, month = 3, day = 15\<rparr>"
    using r by (auto simp: exec_handleConfirm settle_def)
  then obtain s' ts' where
    r': "dispatch_all ?cs (s, ts) = Some (s', ts')"
    and p: "selectedDate s' = Some \<lparr>year = 2024, month = 3, day = 15\<rparr>"
    by blast
  from later [OF n r'] d have "startDate s' = Some \<lparr>year = 2023, month = 11, day = 2\<rparr>"
    by simp
  with r d n r' p show ?thesis
    by (intro exI [of _ s] exI [of _ ts] conjI exI [of _ s'] exI [of _ ts']) simp_all
qed

subsection \<open>C6: the confirm gesture has no guard\<close>

text \<open>
  C6, as stated, fails in one part: the confirm gesture does not by itself issue the two
  network calls. With no date picked, after the confirm gesture and a rejection of the
  persist-date call, the persist-date request is the only request issued, and no event can
  bring the fetch-emails request any more.
\<close>

theorem confirm_without_date_rejected_counterexample:
  "run [Confirm, Settle Rejected] (init [''/dashboard'', ''/login''])
     = Some (save_failed [''/dashboard'', ''/login''] None) \<and>
   selectedDate (init [''/dashboard'', ''/login'']) = None \<and>
   issued (trace (save_failed [''/dashboard'', ''/login''] None)) = [save_start_date_request None] \<and>
   url (save_start_date_request None) \<noteq> ''/api/fetch-emails'' \<and>
   fire (Settle (Resolved 200)) (save_failed [''/dashboard'', ''/login''] None) = None \<and>
   fire (Settle Rejected) (save_failed [''/dashboard'', ''/login''] None) = None \<and>
   fire Confirm (save_failed [''/dashboard'', ''/login''] None) = None"
  by (simp add: init_awaiting fire_shape shape_sel)

text \<open>
  C6, amended: the handler is started by the confirm gesture alone and has no guard: for
  every state of the picked date, unset included, the confirm gesture is possible whenever
  the modal is shown, sets the confirmed date to the picked date, closes the modal and
  issues the persist-date call; the fetch-emails call is issued as soon as the persist-date
  call resolves, whatever its HTTP status.
\<close>

theorem confirm_unguarded:
  assumes "showModal s"
  shows "(\<exists>s1. fire Confirm s = Some s1 \<and>
            startDate s1 = selectedDate s \<and>
            \<not> showModal s1 \<and>
            trace s1 = trace s @ [Issued (save_start_date_request (selectedDate s))] \<and>
            (\<forall>a. \<exists>s2. fire (Settle (Resolved a)) s1 = Some s2 \<and>
               trace s2 = trace s1 @ [Settled ''/api/save-start-date'' (Resolved a),
                                      Issued fetch_emails_request])) \<and>
         (\<forall>e s'. fire e s = Some s' \<longrightarrow> task s = NotStarted \<longrightarrow> task s' \<noteq> NotStarted
            \<longrightarrow> e = Confirm)"
proof -
  let ?s1 = "exec (handleConfirm (selectedDate s)) s"
  have c: "fire Confirm s = Some ?s1"
    using assms by (simp add: wired_Dashboard)
  have d: "startDate ?s1 = selectedDate s" "\<not> showModal ?s1"
    "trace ?s1 = trace s @ [Issued (save_start_date_request (selectedDate s))]"
    by (simp_all add: handleConfirm_def)
  have n: "\<exists>s2. fire (Settle (Resolved a)) ?s1 = Some s2 \<and>
               trace s2 = trace ?s1 @ [Settled ''/api/save-start-date'' (Resolved a),
                                      Issued fetch_emails_request]" for a
    by (simp add: handleConfirm_def settle_def)
  have t: "e = Confirm"
    if "fire e s = Some s'" "task s = NotStarted" "task s' \<noteq> NotStarted" for e s'
    using that by (cases e) (auto simp: wired_Dashboard settle_def split: if_splits)
  from c d n t show ?thesis by blast
qed

theorem confirm_unguarded_witness:
  "showModal (init [''/dashboard'']) \<and> selectedDate (init [''/dashboard'']) = None \<and>
   (\<exists>s1. fire Confirm (init [''/dashboard'']) = Some s1 \<and>
      startDate s1 = None \<and> \<not> showModal s1 \<and>
      trace s1 = [Issued (save_start_date_request None)] \<and>
      (\<exists>s2. fire (Settle (Resolved 200)) s1 = Some s2 \<and>
         trace s2 = [Issued (save_start_date_request None),
                     Settled ''/api/save-start-date'' (Resolved 200),
                     Issued fetch_emails_request]))"
proof -
  have h: "showModal (init [''/dashboard''])"
    by (simp add: init_def)
  from confirm_unguarded [OF h] obtain s1 where
    c: "fire Confirm (init [''/dashboard'']) = Some s1"
    and d: "startDate s1 = selectedDate (init [''/dashboard''])" "\<not> showModal s1"
      "trace s1 = trace (init [''/dashboard''])
         @ [Issued (save_start_date_request (selectedDate (init [''/dashboard''])))]"
    and n: "\<And>a. \<exists>s2. fire (Settle (Resolved a)) s1 = Some s2 \<and>
               trace s2 = trace s1 @ [Settled ''/api/save-start-date'' (Resolved a),
                                      Issued fetch_emails_request]"
    by blast
  from n [of 200] obtain s2 where
    s2: "fire (Settle (Resolved 200)) s1 = Some s2"
      "trace s2 = trace s1 @ [Settled ''/api/save-start-date'' (Resolved 200),
                              Issued fetch_emails_request]"
    by blast
  have i: "selectedDate (init [''/dashboard'']) = None" "trace (init [''/dashboard'']) = []"
    by (simp_all add: init_def)
  from d s2 have "startDate s1 = None" "trace s1 = [Issued (save_start_date_request None)]"
    "trace s2 = [Issued (save_start_date_request None),
                 Settled ''/api/save-start-date'' (Resolved 200),
                 Issued fetch_emails_request]"
    by (simp_all add: i)
  with h i c d(2) s2(1) show ?thesis by blast
qed

subsection \<open>C7: navigation\<close>




subsection \<open>C8: the view\<close>

text \<open>
  C8: what the component renders depends on the modal flag, the picked date and the
  confirmed date only (not on the handler's progress, the requests or the history, so no
  loading or error state exists). When the flag is true the screen shows the dialog with the
  date picker on the picked date and the Confirm button, whose click runs \<^verbatim>\<open>handleConfirm\<close>;
  when it is false the screen has no control and shows the summary line with the confirmed
  date as a calendar string, or \<^verbatim>\<open>Not set\<close> when there is none.
\<close>

theorem Dashboard_view:
  "(showModal s = showModal s' \<and> selectedDate s = selectedDate s' \<and> startDate s = startDate s'
      \<longrightarrow> Dashboard s = Dashboard s') \<and>
   (showModal s \<longrightarrow>
      wired (Dashboard s) = [CloseModal, SetSelectedDate, HandleConfirm] \<and>
      pickers (Dashboard s) = [selectedDate s] \<and>
      buttons (Dashboard s) = [(HandleConfirm, [''Confirm''])] \<and>
      texts (Dashboard s) =
        [''Please enter the start date of your current job search:'', ''Confirm''] \<and>
      fire Confirm s = Some (exec (handleConfirm (selectedDate s)) s)) \<and>
   (\<not> showModal s \<longrightarrow>
      wired (Dashboard s) = [] \<and>
      pickers (Dashboard s) = [] \<and>
      buttons (Dashboard s) = [] \<and>
      texts (Dashboard s) =
        [''Dashboard'', ''Your job search start date: '',
         case startDate s of None \<Rightarrow> ''Not set'' | Some d \<Rightarrow> toString d])"
proof (intro conjI impI)
  assume "showModal s = showModal s' \<and> selectedDate s = selectedDate s' \<and>
    startDate s = startDate s'"
  then show "Dashboard s = Dashboard s'"
    by (simp add: Dashboard_def)
next
  assume "showModal s"
  then show "wired (Dashboard s) = [CloseModal, SetSelectedDate, HandleConfirm]"
    and "pickers (Dashboard s) = [selectedDate s]"
    and "buttons (Dashboard s) = [(HandleConfirm, [''Confirm''])]"
    and "texts (Dashboard s) =
        [''Please enter the start date of your current job search:'', ''Confirm'']"
    and "fire Confirm s = Some (exec (handleConfirm (selectedDate s)) s)"
    by (simp_all add: Dashboard_def)
next
  assume "\<not> showModal s"
  then show "wired (Dashboard s) = []"
    and "pickers (Dashboard s) = []"
    and "buttons (Dashboard s) = []"
    and "texts (Dashboard s) =
        [''Dashboard'', ''Your job search start date: '',
         case startDate s of None \<Rightarrow> ''Not set'' | Some d \<Rightarrow> toString d]"
    by (simp_all add: Dashboard_def)
qed

theorem Dashboard_view_witness:
  "Dashboard (saving [''/dashboard''] (Some \<lparr>year = 2024, month = 3, day = 15\<rparr>))
     = Dashboard (completed [''/dashboard''] (Some \<lparr>year = 2024, month = 3, day = 15\<rparr>) 200 200) \<and>
   showModal (init [''/dashboard'']) \<and>
   texts (Dashboard (init [''/dashboard''])) =
     [''Please enter the start date of your current job search:'', ''Confirm''] \<and>
   buttons (Dashboard (init [''/dashboard''])) = [(HandleConfirm, [''Confirm''])] \<and>
   \<not> showModal (saving [''/dashboard''] (Some \<lparr>year = 2024, month = 3, day = 15\<rparr>)) \<and>
   texts (Dashboard (saving [''/dashboard''] (Some \<lparr>year = 2024, month = 3, day = 15\<rparr>))) =
     [''Dashboard'', ''Your job search start date: '', ''2024-03-15'']"
proof -
  let ?a = "saving [''/dashboard''] (Some \<lparr>year = 2024, month = 3, day = 15\<rparr>)"
  let ?b = "completed [''/dashboard''] (Some \<lparr>year = 2024, month = 3, day = 15\<rparr>) 200 200"
  let ?i = "init [''/dashboard'']"
  have e: "showModal ?a = showModal ?b \<and> selectedDate ?a = selectedDate ?b \<and>
      startDate ?a = startDate ?b"
    by (simp add: shape_sel)
  have na: "\<not> showModal ?a"
    by (simp add: shape_sel)
  have hi: "showModal ?i"
    by (simp add: init_def)
  from Dashboard_view [of ?a ?b] e na
  have 1: "Dashboard ?a = Dashboard ?b"
    and 2: "texts (Dashboard ?a) =
        [''Dashboard'', ''Your job search start date: '',
         case startDate ?a of None \<Rightarrow> ''Not set'' | Some d \<Rightarrow> toString d]"
    by blast+
  from Dashboard_view [of ?i ?i] hi
  have 3: "texts (Dashboard ?i) =
        [''Please enter the start date of your current job search:'', ''Confirm'']"
    and 4: "buttons (Dashboard ?i) = [(HandleConfirm, [''Confirm''])]"
    by blast+
  have 5: "(case startDate ?a of None \<Rightarrow> ''Not set'' | Some d \<Rightarrow> toString d) = ''2024-03-15''"
    by (simp add: shape_sel toString_example)
  from 1 2 [unfolded 5] 3 4 na hi show ?thesis
    by (intro conjI)
qed

subsection \<open>C9: dismissing the dialog\<close>

text \<open>
  C9: whenever the modal is shown, the dialog's close gesture hides it and changes nothing
  else: the picked and the confirmed date, the trace (no request, no navigation), the
  history and the handler's state stay as they are. The dashboard then shows the
  \<^verbatim>\<open>Not set\<close> placeholder, and no further event is possible: the confirmation workflow
  was never entered.
\<close>

theorem close_dismisses_to_dashboard:
  assumes "run es (init h) = Some s" and "showModal s"
  shows "\<exists>s'. fire Close s = Some s' \<and>
           \<not> showModal s' \<and>
           selectedDate s' = selectedDate s \<and>
           startDate s' = startDate s \<and>
           trace s' = trace s \<and> trace s' = [] \<and>
           history s' = history s \<and>
           task s' = task s \<and> task s' = NotStarted \<and>
           texts (Dashboard s') = [''Dashboard'', ''Your job search start date: '', ''Not set''] \<and>
           (\<forall>e. fire e s' = None)"
proof -
  from session_state_reached [OF assms(1)] assms(2)
  obtain sel where s: "s = awaiting_input h sel"
    by (cases rule: session_state.cases) (simp_all add: shape_sel)
  have c: "fire Close s = Some (dismissed h sel)"
    unfolding s by (simp add: fire_shape)
  have t: "texts (Dashboard (dismissed h sel)) =
      [''Dashboard'', ''Your job search start date: '', ''Not set'']"
    by (simp add: Dashboard_def shape_sel)
  from c t show ?thesis
    unfolding s by (simp add: shape_sel fire_shape del: fire.simps)
qed

theorem close_dismisses_to_dashboard_witness:
  "run [Change (Some \<lparr>year = 2024, month = 3, day = 15\<rparr>)] (init [''/dashboard''])
     = Some (awaiting_input [''/dashboard''] (Some \<lparr>year = 2024, month = 3, day = 15\<rparr>)) \<and>
   showModal (awaiting_input [''/dashboard''] (Some \<lparr>year = 2024, month = 3, day = 15\<rparr>)) \<and>
   (\<exists>s'. fire Close (awaiting_input [''/dashboard''] (Some \<lparr>year = 2024, month = 3, day = 15\<rparr>))
            = Some s' \<and>
      \<not> showModal s' \<and>
      selectedDate s' = Some \<lparr>year = 2024, month = 3, day = 15\<rparr> \<and>
      startDate s' = None \<and> trace s' = [] \<and> history s' = [''/dashboard''] \<and>
      texts (Dashboard s') = [''Dashboard'', ''Your job search start date: '', ''Not set''])"
proof -
  have r: "run [Change (Some \<lparr>year = 2024, month = 3, day = 15\<rparr>)] (init [''/dashboard''])
     = Some (awaiting_input [''/dashboard''] (Some \<lparr>year = 2024, month = 3, day = 15\<rparr>))"
    by (simp add: init_awaiting fire_shape)
  have m: "showModal (awaiting_input [''/dashboard''] (Some \<lparr>year = 2024, month = 3, day = 15\<rparr>))"
    by (simp add: shape_sel)
  from close_dismisses_to_dashboard [OF r m] obtain s' where
    "fire Close (awaiting_input [''/dashboard''] (Some \<lparr>year = 2024, month = 3, day = 15\<rparr>))
       = Some s'" "\<not> showModal s'"
    "selectedDate s' = Some \<lparr>year = 2024, month = 3, day = 15\<rparr>"
    "startDate s' = None" "trace s' = []" "history s' = [''/dashboard'']"
    "texts (Dashboard s') = [''Dashboard'', ''Your job search start date: '', ''Not set'']"
    by (auto simp: shape_sel simp del: fire.simps)
  with r m show ?thesis by blast
qed

subsection \<open>C10: the fetch-emails request does not depend on the date\<close>

text \<open>
  C10: in any two sessions, whatever dates were picked or confirmed in them, every
  fetch-emails request issued is the same request, with the constant body
  \<^verbatim>\<open>{"user_id":"your_user_id_here"}\<close>; no date occurs in it.
\<close>

theorem fetch_emails_request_constant:
  assumes "run es1 (init h1) = Some s1" and "run es2 (init h2) = Some s2"
    and "Issued r1 \<in> set (trace s1)" and "url r1 = ''/api/fetch-emails''"
    and "Issued r2 \<in> set (trace s2)" and "url r2 = ''/api/fetch-emails''"
  shows \<open>r1 = r2 \<and> r1 = fetch_emails_request \<and>
         body r1 = Some ''{"user_id":"your_user_id_here"}''\<close>
proof -
  have only: "r = fetch_emails_request"
    if "session_state h s" and "Issued r \<in> set (trace s)" and "url r = ''/api/fetch-emails''"
    for h s r
    using that by (cases rule: session_state.cases) (auto simp: shape_defs)
  have "r1 = fetch_emails_request"
    using only [OF session_state_reached [OF assms(1)] assms(3,4)] .
  moreover have "r2 = fetch_emails_request"
    using only [OF session_state_reached [OF assms(2)] assms(5,6)] .
  ultimately show ?thesis
    using body_fetch by simp
qed

theorem fetch_emails_request_constant_witness:
  \<open>run [Change (Some \<lparr>year = 2024, month = 3, day = 15\<rparr>), Confirm, Settle (Resolved 200)]
       (init [''/dashboard''])
     = Some (fetching [''/dashboard''] (Some \<lparr>year = 2024, month = 3, day = 15\<rparr>) 200) \<and>
   run [Confirm, Settle (Resolved 204), Settle (Resolved 500)] (init [''/dashboard'', ''/login''])
     = Some (completed [''/dashboard'', ''/login''] None 204 500) \<and>
   Issued fetch_emails_request
     \<in> set (trace (fetching [''/dashboard''] (Some \<lparr>year = 2024, month = 3, day = 15\<rparr>) 200)) \<and>
   Issued fetch_emails_request
     \<in> set (trace (completed [''/dashboard'', ''/login''] None 204 500)) \<and>
   url fetch_emails_request = ''/api/fetch-emails'' \<and>
   body fetch_emails_request = Some ''{"user_id":"your_user_id_here"}''\<close>
proof -
  have r1: "run [Change (Some \<lparr>year = 2024, month = 3, day = 15\<rparr>), Confirm, Settle (Resolved 200)]
       (init [''/dashboard''])
     = Some (fetching [''/dashboard''] (Some \<lparr>year = 2024, month = 3, day = 15\<rparr>) 200)"
    by (simp add: init_awaiting fire_shape)
  have r2: "run [Confirm, Settle (Resolved 204), Settle (Resolved 500)]
       (init [''/dashboard'', ''/login''])
     = Some (completed [''/dashboard'', ''/login''] None 204 500)"
    by (simp add: init_awaiting fire_shape)
  have i1: "Issued fetch_emails_request
     \<in> set (trace (fetching [''/dashboard''] (Some \<lparr>year = 2024, month = 3, day = 15\<rparr>) 200))"
    by (simp add: fetching_def)
  have i2: "Issued fetch_emails_request
     \<in> set (trace (completed [''/dashboard'', ''/login''] None 204 500))"
    by (simp add: completed_def)
  from fetch_emails_request_constant [OF r1 r2 i1 url_fetch i2 url_fetch] r1 r2 i1 i2
  show ?thesis by simp
qed

end
